theory Spec2Isabelle
  imports Main "HOL-Library.Sublist"
begin

section \<open>A shallow embedding of the Declic service worker (\<^verbatim>\<open>sw.js\<close>)\<close>

text \<open>
  The worker is event driven: every listener is modelled as a function from the worker's
  state (the cache storage, a log of the network requests made, and the two lifecycle
  flags) to a result and the new state. A rejected promise or a thrown exception is the
  left injection of a sum, a fulfilled promise the right one. The platform (URL parsing,
  the worker's own location, the network) is a record of functions that the handlers
  take as a parameter. Console output is not modelled.
\<close>

subsection \<open>JavaScript string predicates\<close>

text \<open>\<^verbatim>\<open>s.startsWith(p)\<close>, \<^verbatim>\<open>s.endsWith(p)\<close> and \<^verbatim>\<open>s.includes(p)\<close>.\<close>

definition startsWith :: "string \<Rightarrow> string \<Rightarrow> bool" where
  "startsWith s p = (take (length p) s = p)"

definition endsWith :: "string \<Rightarrow> string \<Rightarrow> bool" where
  "endsWith s p = (length p \<le> length s \<and> drop (length s - length p) s = p)"

fun includesStr :: "string \<Rightarrow> string \<Rightarrow> bool" where
  "includesStr [] p = (p = [])"
| "includesStr (c # s) p = (startsWith (c # s) p \<or> includesStr s p)"

subsection \<open>Constants of the worker\<close>

definition CACHE_NAME :: string where
  "CACHE_NAME = ''matteo-declic-v1.0.0''"

definition STATIC_CACHE :: string where
  "STATIC_CACHE = ''matteo-declic-static-v1.0.0''"

definition DYNAMIC_CACHE :: string where
  "DYNAMIC_CACHE = ''matteo-declic-dynamic-v1.0.0''"

definition STATIC_ASSETS :: "string list" where
  "STATIC_ASSETS = [''./'', ''./index.html'', ''./manifest.json'']"

definition OPTIONAL_ASSETS :: "string list" where
  "OPTIONAL_ASSETS = [''./icon-192x192.png'', ''./icon-512x512.png'']"

subsection \<open>Requests, responses and the platform\<close>

record request =
  req_url :: string
  req_method :: string
  req_mode :: string

record response =
  status :: nat
  headers :: "(string \<times> string) list"
  body :: string

text \<open>\<^verbatim>\<open>response.ok\<close>: the status is in the range 200 to 299.\<close>

definition ok :: "response \<Rightarrow> bool" where
  "ok r = (200 \<le> status r \<and> status r \<le> 299)"

datatype error = NetworkError | TypeError

text \<open>What \<^verbatim>\<open>new URL(request.url)\<close> yields, as far as the worker reads it.\<close>

record url =
  origin :: string
  pathname :: string

text \<open>
  The platform: \<^verbatim>\<open>new URL(s)\<close>, \<^verbatim>\<open>self.location.origin\<close>, the resolution of a
  relative URL against the worker's location (what the cache and the network do with a
  string such as \<^verbatim>\<open>'./index.html'\<close>), and the network, where a failed fetch rejects.
\<close>

record platform =
  new_URL :: "string \<Rightarrow> url"
  location_origin :: string
  resolve :: "string \<Rightarrow> string"
  network :: "request \<Rightarrow> error + response"

subsection \<open>Strategy selection\<close>

datatype strategy = CacheFirst | NetworkFirst

definition getCacheStrategy :: "platform \<Rightarrow> request \<Rightarrow> strategy" where
  "getCacheStrategy pf request =
     (let url = new_URL pf (req_url request) in
      if origin url = location_origin pf
      then
        (if pathname url = ''./'' \<or>
            pathname url = ''./index.html'' \<or>
            pathname url = ''./manifest.json'' \<or>
            includesStr (pathname url) ''icon-'' \<or>
            endsWith (pathname url) ''.html'' \<or>
            endsWith (pathname url) ''.js'' \<or>
            endsWith (pathname url) ''.css'' \<or>
            endsWith (pathname url) ''.png'' \<or>
            endsWith (pathname url) ''.jpg'' \<or>
            endsWith (pathname url) ''.svg'' \<or>
            endsWith (pathname url) ''.ico''
         then CacheFirst
         else NetworkFirst)
      else NetworkFirst)"

text \<open>
  The vocabulary of the specification of the selector. The extension of a path is the
  text after its last dot; a path names an icon asset when it contains \<^verbatim>\<open>icon-\<close>.
\<close>

definition path_extension :: "string \<Rightarrow> string option" where
  "path_extension p =
     (if CHR ''.'' \<in> set p
      then Some (rev (takeWhile (\<lambda>c. c \<noteq> CHR ''.'') (rev p)))
      else None)"

definition cached_extensions :: "string list" where
  "cached_extensions = [''html'', ''js'', ''css'', ''png'', ''jpg'', ''svg'', ''ico'']"

definition has_cached_extension :: "string \<Rightarrow> bool" where
  "has_cached_extension p =
     (case path_extension p of None \<Rightarrow> False | Some e \<Rightarrow> e \<in> set cached_extensions)"

definition same_origin :: "platform \<Rightarrow> request \<Rightarrow> bool" where
  "same_origin pf request = (origin (new_URL pf (req_url request)) = location_origin pf)"

definition request_path :: "platform \<Rightarrow> request \<Rightarrow> string" where
  "request_path pf request = pathname (new_URL pf (req_url request))"

definition names_icon :: "string \<Rightarrow> bool" where
  "names_icon p = sublist ''icon-'' p"

subsection \<open>The cache storage\<close>

text \<open>
  A cache is the ordered sequence of its entries, keyed by the URL of a GET request
  (\<^verbatim>\<open>cache.keys()\<close> enumerates them in this order); the cache storage is the ordered
  sequence of the named caches (\<^verbatim>\<open>caches.keys()\<close>).
\<close>

type_synonym cache = "(string \<times> response) list"

type_synonym cache_storage = "(string \<times> cache) list"

definition caches_keys :: "cache_storage \<Rightarrow> string list" where
  "caches_keys cs = map fst cs"

text \<open>\<^verbatim>\<open>caches.open(name)\<close> creates the cache when there is none of that name.\<close>

definition caches_open :: "string \<Rightarrow> cache_storage \<Rightarrow> cache_storage" where
  "caches_open name cs = (if name \<in> set (caches_keys cs) then cs else cs @ [(name, [])])"

definition caches_delete :: "string \<Rightarrow> cache_storage \<Rightarrow> cache_storage" where
  "caches_delete name cs = filter (\<lambda>(n, c). n \<noteq> name) cs"

definition cache_of :: "string \<Rightarrow> cache_storage \<Rightarrow> cache" where
  "cache_of name cs = (case map_of cs name of None \<Rightarrow> [] | Some c \<Rightarrow> c)"

definition update_cache :: "string \<Rightarrow> (cache \<Rightarrow> cache) \<Rightarrow> cache_storage \<Rightarrow> cache_storage" where
  "update_cache name f cs = map (\<lambda>(n, c). if n = name then (n, f c) else (n, c)) cs"

definition cache_keys :: "cache \<Rightarrow> string list" where
  "cache_keys c = map fst c"

definition cache_delete_entry :: "string \<Rightarrow> cache \<Rightarrow> cache" where
  "cache_delete_entry u c = filter (\<lambda>(k, r). k \<noteq> u) c"

text \<open>A stored entry replaces the entry of the same key and goes to the end.\<close>

definition cache_put_entry :: "string \<Rightarrow> response \<Rightarrow> cache \<Rightarrow> cache" where
  "cache_put_entry u r c = cache_delete_entry u c @ [(u, r)]"

text \<open>
  \<^verbatim>\<open>cache.put(request, response)\<close> on the cache of the given name. The promise rejects,
  and nothing is stored, for a request that is not a GET and for a partial response
  (status 206); the worker never awaits that promise.
\<close>

definition cache_put :: "string \<Rightarrow> request \<Rightarrow> response \<Rightarrow> cache_storage \<Rightarrow> cache_storage" where
  "cache_put name request r cs =
     (if req_method request = ''GET'' \<and> status r \<noteq> 206
      then update_cache name (cache_put_entry (req_url request) r) cs
      else cs)"

definition cache_delete :: "string \<Rightarrow> string \<Rightarrow> cache_storage \<Rightarrow> cache_storage" where
  "cache_delete name u cs = update_cache name (cache_delete_entry u) cs"

text \<open>\<^verbatim>\<open>caches.match\<close> searches the caches in the order of their creation.\<close>

fun caches_match_url :: "cache_storage \<Rightarrow> string \<Rightarrow> response option" where
  "caches_match_url [] u = None"
| "caches_match_url ((n, c) # cs) u =
     (case map_of c u of Some r \<Rightarrow> Some r | None \<Rightarrow> caches_match_url cs u)"

definition caches_match :: "cache_storage \<Rightarrow> request \<Rightarrow> response option" where
  "caches_match cs request =
     (if req_method request = ''GET'' then caches_match_url cs (req_url request) else None)"

subsection \<open>The worker's state and the network\<close>

record worker =
  storage :: cache_storage
  fetched :: "request list"
  skip_waiting :: bool
  clients_claimed :: bool

text \<open>\<^verbatim>\<open>fetch(request)\<close>: every call is logged in \<open>fetched\<close>.\<close>

definition fetch :: "platform \<Rightarrow> request \<Rightarrow> worker \<Rightarrow> (error + response) \<times> worker" where
  "fetch pf request w = (network pf request, w\<lparr>fetched := fetched w @ [request]\<rparr>)"

text \<open>The request that the platform builds from a URL string.\<close>

definition request_of :: "platform \<Rightarrow> string \<Rightarrow> request" where
  "request_of pf u = \<lparr>req_url = resolve pf u, req_method = ''GET'', req_mode = ''cors''\<rparr>"

text \<open>
  \<^verbatim>\<open>cache.add(url)\<close> fetches the URL and stores the response; it rejects when the fetch
  fails and when the response is not ok or is partial.
\<close>

definition cache_add :: "platform \<Rightarrow> string \<Rightarrow> string \<Rightarrow> worker \<Rightarrow> (error + unit) \<times> worker" where
  "cache_add pf name u w =
     (let request = request_of pf u;
          (res, w1) = fetch pf request w
      in case res of
           Inl e \<Rightarrow> (Inl e, w1)
         | Inr r \<Rightarrow>
             if ok r \<and> status r \<noteq> 206
             then (Inr (), w1\<lparr>storage := cache_put name request r (storage w1)\<rparr>)
             else (Inl TypeError, w1))"

text \<open>
  \<^verbatim>\<open>cache.addAll(urls)\<close> fetches every URL and stores the responses only when all of
  them are acceptable.
\<close>

fun fetch_all :: "platform \<Rightarrow> string list \<Rightarrow> worker \<Rightarrow> (error + (request \<times> response) list) \<times> worker" where
  "fetch_all pf [] w = (Inr [], w)"
| "fetch_all pf (u # us) w =
     (let request = request_of pf u;
          (res, w1) = fetch pf request w;
          (rest, w2) = fetch_all pf us w1
      in case res of
           Inl e \<Rightarrow> (Inl e, w2)
         | Inr r \<Rightarrow>
             if ok r \<and> status r \<noteq> 206
             then (case rest of Inl e \<Rightarrow> (Inl e, w2) | Inr rs \<Rightarrow> (Inr ((request, r) # rs), w2))
             else (Inl TypeError, w2))"

definition cache_addAll :: "platform \<Rightarrow> string \<Rightarrow> string list \<Rightarrow> worker \<Rightarrow> (error + unit) \<times> worker" where
  "cache_addAll pf name us w =
     (let (res, w1) = fetch_all pf us w
      in case res of
           Inl e \<Rightarrow> (Inl e, w1)
         | Inr rs \<Rightarrow> (Inr (), w1\<lparr>storage := fold (\<lambda>(q, r). cache_put name q r) rs (storage w1)\<rparr>))"

subsection \<open>The install listener\<close>

text \<open>
  The value is the outcome of the promise handed to \<^verbatim>\<open>event.waitUntil\<close>: the
  installation completes when it is fulfilled and fails when it is rejected.
  \<open>required\<close> is the first element of the \<^verbatim>\<open>Promise.all\<close>; the second one, a
  \<^verbatim>\<open>Promise.allSettled\<close> over promises that each carry their own \<^verbatim>\<open>catch\<close>, is
  always fulfilled. \<open>chained\<close> is the promise after \<^verbatim>\<open>then\<close>, and the result the one
  after the final \<^verbatim>\<open>catch\<close>, whose handler logs the error and returns.
\<close>

definition install :: "platform \<Rightarrow> worker \<Rightarrow> (error + unit) \<times> worker" where
  "install pf w =
     (let w1 = w\<lparr>storage := caches_open STATIC_CACHE (storage w)\<rparr>;
          (required, w2) = cache_addAll pf STATIC_CACHE STATIC_ASSETS w1;
          w3 = w2\<lparr>storage := caches_open DYNAMIC_CACHE (storage w2)\<rparr>;
          w4 = fold (\<lambda>asset v. snd (cache_add pf DYNAMIC_CACHE asset v)) OPTIONAL_ASSETS w3;
          (chained, w5) =
            (case required of
               Inr u \<Rightarrow> (Inr (), w4\<lparr>skip_waiting := True\<rparr>)
             | Inl e \<Rightarrow> (Inl e, w4))
      in case chained of
           Inr u \<Rightarrow> (Inr (), w5)
         | Inl e \<Rightarrow> (Inr (), w5))"

subsection \<open>The activate listener\<close>

definition activate :: "worker \<Rightarrow> (error + unit) \<times> worker" where
  "activate w =
     (let cacheNames = caches_keys (storage w);
          stale = filter (\<lambda>cacheName.
                    startsWith cacheName ''matteo-declic-'' \<and>
                    cacheName \<notin> set [STATIC_CACHE, DYNAMIC_CACHE]) cacheNames;
          w1 = w\<lparr>storage := fold caches_delete stale (storage w)\<rparr>
      in (Inr (), w1\<lparr>clients_claimed := True\<rparr>))"

text \<open>The cache generations that belong to the application.\<close>

definition app_generations :: "worker \<Rightarrow> string set" where
  "app_generations w = {n \<in> set (caches_keys (storage w)). startsWith n ''matteo-declic-''}"

subsection \<open>The two executors\<close>

definition offline_response :: response where
  "offline_response =
     \<lparr>status = 503,
      headers = [(''Content-Type'', ''text/html; charset=utf-8'')],
      body = ''Application hors ligne''\<rparr>"

definition cacheFirst :: "platform \<Rightarrow> request \<Rightarrow> worker \<Rightarrow> (error + response) \<times> worker" where
  "cacheFirst pf request w =
     (case caches_match (storage w) request of
        Some cachedResponse \<Rightarrow> (Inr cachedResponse, w)
      | None \<Rightarrow>
          (let (res, w1) = fetch pf request w
           in case res of
                Inr networkResponse \<Rightarrow>
                  if ok networkResponse
                  then (Inr networkResponse,
                        w1\<lparr>storage := cache_put DYNAMIC_CACHE request networkResponse
                                        (caches_open DYNAMIC_CACHE (storage w1))\<rparr>)
                  else (Inr networkResponse, w1)
              | Inl error \<Rightarrow>
                  if req_mode request = ''navigate''
                  then (case caches_match_url (storage w1) (resolve pf ''./index.html'') of
                          Some fallback \<Rightarrow> (Inr fallback, w1)
                        | None \<Rightarrow> (Inr offline_response, w1))
                  else (Inl error, w1)))"

definition networkFirst :: "platform \<Rightarrow> request \<Rightarrow> worker \<Rightarrow> (error + response) \<times> worker" where
  "networkFirst pf request w =
     (let (res, w1) = fetch pf request w
      in case res of
           Inr networkResponse \<Rightarrow>
             if ok networkResponse \<and> req_method request = ''GET''
             then (Inr networkResponse,
                   w1\<lparr>storage := cache_put DYNAMIC_CACHE request networkResponse
                                   (caches_open DYNAMIC_CACHE (storage w1))\<rparr>)
             else (Inr networkResponse, w1)
         | Inl error \<Rightarrow>
             (case caches_match (storage w1) request of
                Some cachedResponse \<Rightarrow> (Inr cachedResponse, w1)
              | None \<Rightarrow> (Inl error, w1)))"

subsection \<open>The fetch listener\<close>

text \<open>
  The listener either returns without calling \<^verbatim>\<open>event.respondWith\<close>, and the browser
  handles the request as if there were no worker, or it answers with a response.
\<close>

datatype interception = NotIntercepted | RespondWith response

definition unavailable_response :: response where
  "unavailable_response =
     \<lparr>status = 404,
      headers = [(''Content-Type'', ''text/plain; charset=utf-8'')],
      body = ''Contenu non disponible''\<rparr>"

text \<open>
  The scheme of a URL is the text before its first colon. The schemes under which
  browsers serve the resources of their extensions: Chrome and the browsers built on
  Chromium, Firefox, Safari, and the first Edge.
\<close>

definition url_scheme :: "string \<Rightarrow> string" where
  "url_scheme u = takeWhile (\<lambda>c. c \<noteq> CHR '':'') u"

definition extension_schemes :: "string list" where
  "extension_schemes =
     [''chrome-extension'', ''moz-extension'', ''safari-web-extension'', ''safari-extension'',
      ''ms-browser-extension'']"

definition browser_extension_scheme :: "request \<Rightarrow> bool" where
  "browser_extension_scheme request = (url_scheme (req_url request) \<in> set extension_schemes)"

text \<open>The two kinds of extension URL that the listener tests for.\<close>

definition chrome_or_moz_extension :: "request \<Rightarrow> bool" where
  "chrome_or_moz_extension request =
     (prefix ''chrome-extension://'' (req_url request) \<or>
      prefix ''moz-extension://'' (req_url request))"

definition fetch_listener :: "platform \<Rightarrow> request \<Rightarrow> worker \<Rightarrow> interception \<times> worker" where
  "fetch_listener pf request w =
     (if req_method request \<noteq> ''GET'' \<or>
         startsWith (req_url request) ''chrome-extension://'' \<or>
         startsWith (req_url request) ''moz-extension://''
      then (NotIntercepted, w)
      else
        (let strategy = getCacheStrategy pf request;
             (res, w1) = (if strategy = CacheFirst
                          then cacheFirst pf request w
                          else networkFirst pf request w)
         in case res of
              Inr r \<Rightarrow> (RespondWith r, w1)
            | Inl error \<Rightarrow>
                (case (if req_mode request = ''navigate''
                       then caches_match_url (storage w1) (resolve pf ''./index.html'')
                       else None) of
                   Some fallback \<Rightarrow> (RespondWith fallback, w1)
                 | None \<Rightarrow> (RespondWith unavailable_response, w1))))"

subsection \<open>Background synchronisation\<close>

text \<open>
  The first half of \<^verbatim>\<open>performBackgroundSync\<close>: the dynamic cache is cut down to 50
  entries. \<^verbatim>\<open>requests.slice(0, requests.length - 50)\<close> is \<open>take\<close>.
\<close>

definition limitDynamicCache :: "worker \<Rightarrow> worker" where
  "limitDynamicCache w =
     (let w1 = w\<lparr>storage := caches_open DYNAMIC_CACHE (storage w)\<rparr>;
          requests = cache_keys (cache_of DYNAMIC_CACHE (storage w1))
      in if length requests > 50
         then (let oldestRequests = take (length requests - 50) requests
               in w1\<lparr>storage := fold (cache_delete DYNAMIC_CACHE) oldestRequests (storage w1)\<rparr>)
         else w1)"

text \<open>The second half stores the main document again; a failure is only logged.\<close>

definition performBackgroundSync :: "platform \<Rightarrow> worker \<Rightarrow> worker" where
  "performBackgroundSync pf w =
     snd (cache_add pf DYNAMIC_CACHE ''./index.html'' (limitDynamicCache w))"

text \<open>The entries of the dynamic generation.\<close>

definition dynamic_entries :: "worker \<Rightarrow> cache" where
  "dynamic_entries w = cache_of DYNAMIC_CACHE (storage w)"

subsection \<open>A platform and a worker for the examples\<close>

text \<open>
  A reading of \<^verbatim>\<open>https\<close> URLs without port, query or fragment: the origin ends before
  the first slash after the scheme, the path is the rest.
\<close>

definition example_URL :: "string \<Rightarrow> url" where
  "example_URL u =
     (let host = takeWhile (\<lambda>c. c \<noteq> CHR ''/'') (drop 8 u);
          path = dropWhile (\<lambda>c. c \<noteq> CHR ''/'') (drop 8 u)
      in \<lparr>origin = take 8 u @ host, pathname = (if path = [] then ''/'' else path)\<rparr>)"

definition example_resolve :: "string \<Rightarrow> string" where
  "example_resolve u = ''https://declic.example/'' @ drop 2 u"

text \<open>The network of \<open>offline\<close> fails every fetch; that of \<open>missing\<close> answers 404.\<close>

definition offline :: platform where
  "offline =
     \<lparr>new_URL = example_URL, location_origin = ''https://declic.example'',
      resolve = example_resolve, network = (\<lambda>request. Inl NetworkError)\<rparr>"

definition missing :: platform where
  "missing =
     \<lparr>new_URL = example_URL, location_origin = ''https://declic.example'',
      resolve = example_resolve,
      network = (\<lambda>request. Inr \<lparr>status = 404, headers = [], body = []\<rparr>)\<rparr>"

definition get_request :: "string \<Rightarrow> string \<Rightarrow> request" where
  "get_request u m = \<lparr>req_url = u, req_method = ''GET'', req_mode = m\<rparr>"

definition fresh_worker :: worker where
  "fresh_worker = \<lparr>storage = [], fetched = [], skip_waiting = False, clients_claimed = False\<rparr>"

definition page :: response where
  "page = \<lparr>status = 200, headers = [], body = ''<html>''\<rparr>"

text \<open>
  Workers for the examples: one with a generation of an earlier version and a cache of
  another application, one whose static generation holds the main document, and one
  whose dynamic generation holds 73 entries.
\<close>

definition stale_worker :: worker where
  "stale_worker =
     fresh_worker\<lparr>storage :=
       [(''matteo-declic-static-v0.9.0'', [(''https://declic.example/index.html'', page)]),
        (''fonts'', []),
        (STATIC_CACHE, []),
        (DYNAMIC_CACHE, [])]\<rparr>"

definition stocked_worker :: worker where
  "stocked_worker =
     fresh_worker\<lparr>storage :=
       [(STATIC_CACHE, [(''https://declic.example/index.html'', page)]),
        (DYNAMIC_CACHE, [])]\<rparr>"

definition numbered_entries :: "nat \<Rightarrow> cache" where
  "numbered_entries n =
     map (\<lambda>i. (''https://declic.example/'' @ replicate i (CHR ''a''), page)) [0..<n]"

definition crowded_worker :: worker where
  "crowded_worker =
     fresh_worker\<lparr>storage := [(STATIC_CACHE, []), (DYNAMIC_CACHE, numbered_entries 73)]\<rparr>"

section \<open>Properties\<close>

subsection \<open>The string predicates are the library's prefix, suffix and sublist\<close>

lemma startsWith_prefix: "startsWith s p \<longleftrightarrow> prefix p s"
  unfolding startsWith_def
  by (metis take_is_prefix prefix_def append_eq_conv_conj)

lemma endsWith_suffix: "endsWith s p \<longleftrightarrow> suffix p s"
proof
  assume "endsWith s p"
  then have "drop (length s - length p) s = p"
    by (simp add: endsWith_def)
  then show "suffix p s"
    by (metis suffix_drop)
next
  assume "suffix p s"
  then obtain zs where "s = zs @ p"
    by (auto simp: suffix_def)
  then show "endsWith s p"
    by (simp add: endsWith_def)
qed

lemma includesStr_sublist: "includesStr s p \<longleftrightarrow> sublist p s"
  by (induction s) (auto simp: startsWith_prefix sublist_Cons_right)

subsection \<open>Strategy selection\<close>

text \<open>
  A path ends with a dot followed by a dot-free extension exactly when that extension is
  the text after the last dot of the path.
\<close>

lemma takeWhile_upto_dot:
  assumes "d \<notin> set xs"
  shows "takeWhile (\<lambda>c. c \<noteq> d) (xs @ d # ys) = xs"
  using assms by (induction xs) auto

lemma endsWith_extension:
  assumes "CHR ''.'' \<notin> set e"
  shows "endsWith p (CHR ''.'' # e) \<longleftrightarrow> path_extension p = Some e"
proof
  assume "endsWith p (CHR ''.'' # e)"
  then obtain zs where p: "p = zs @ CHR ''.'' # e"
    by (auto simp: endsWith_suffix suffix_def)
  have "CHR ''.'' \<notin> set (rev e)"
    using assms by simp
  then have "takeWhile (\<lambda>c. c \<noteq> CHR ''.'') (rev e @ CHR ''.'' # rev zs) = rev e"
    by (rule takeWhile_upto_dot)
  then show "path_extension p = Some e"
    by (simp add: p path_extension_def)
next
  assume ext: "path_extension p = Some e"
  then have dot: "CHR ''.'' \<in> set p" and e: "e = rev (takeWhile (\<lambda>c. c \<noteq> CHR ''.'') (rev p))"
    by (auto simp: path_extension_def split: if_splits)
  from dot have "dropWhile (\<lambda>c. c \<noteq> CHR ''.'') (rev p) \<noteq> []"
    by (auto simp: dropWhile_eq_Nil_conv)
  then obtain y ys where ys: "dropWhile (\<lambda>c. c \<noteq> CHR ''.'') (rev p) = y # ys"
    by (cases "dropWhile (\<lambda>c. c \<noteq> CHR ''.'') (rev p)") auto
  have "\<not> (hd (dropWhile (\<lambda>c. c \<noteq> CHR ''.'') (rev p)) \<noteq> CHR ''.'')"
    using \<open>dropWhile (\<lambda>c. c \<noteq> CHR ''.'') (rev p) \<noteq> []\<close> by (rule hd_dropWhile)
  then have y: "y = CHR ''.''"
    by (simp add: ys)
  have "rev p = rev e @ CHR ''.'' # ys"
    using takeWhile_dropWhile_id [of "\<lambda>c. c \<noteq> CHR ''.''" "rev p"] by (simp add: e ys y)
  then have "rev (rev p) = rev (rev e @ CHR ''.'' # ys)"
    by simp
  then have "p = rev ys @ CHR ''.'' # e"
    by simp
  then show "endsWith p (CHR ''.'' # e)"
    by (simp add: endsWith_suffix suffix_def)
qed

lemma cached_extension_endsWith:
  "has_cached_extension p \<longleftrightarrow>
     endsWith p ''.html'' \<or> endsWith p ''.js'' \<or> endsWith p ''.css'' \<or> endsWith p ''.png'' \<or>
     endsWith p ''.jpg'' \<or> endsWith p ''.svg'' \<or> endsWith p ''.ico''"
proof -
  have html: "endsWith p ''.html'' \<longleftrightarrow> path_extension p = Some ''html''"
    by (rule endsWith_extension) simp
  have js: "endsWith p ''.js'' \<longleftrightarrow> path_extension p = Some ''js''"
    by (rule endsWith_extension) simp
  have css: "endsWith p ''.css'' \<longleftrightarrow> path_extension p = Some ''css''"
    by (rule endsWith_extension) simp
  have png: "endsWith p ''.png'' \<longleftrightarrow> path_extension p = Some ''png''"
    by (rule endsWith_extension) simp
  have jpg: "endsWith p ''.jpg'' \<longleftrightarrow> path_extension p = Some ''jpg''"
    by (rule endsWith_extension) simp
  have svg: "endsWith p ''.svg'' \<longleftrightarrow> path_extension p = Some ''svg''"
    by (rule endsWith_extension) simp
  have ico: "endsWith p ''.ico'' \<longleftrightarrow> path_extension p = Some ''ico''"
    by (rule endsWith_extension) simp
  show ?thesis
  proof (cases "path_extension p")
    case None
    then show ?thesis
      by (simp add: has_cached_extension_def html js css png jpg svg ico)
  next
    case (Some e)
    have "has_cached_extension p \<longleftrightarrow> e \<in> set cached_extensions"
      by (simp add: has_cached_extension_def Some)
    also have "\<dots> \<longleftrightarrow> e = ''html'' \<or> e = ''js'' \<or> e = ''css'' \<or> e = ''png'' \<or>
        e = ''jpg'' \<or> e = ''svg'' \<or> e = ''ico''"
      by (simp add: cached_extensions_def)
    finally show ?thesis
      by (simp add: html js css png jpg svg ico Some)
  qed
qed

lemma getCacheStrategy_cond:
  "getCacheStrategy pf request =
     (if same_origin pf request \<and>
         (request_path pf request = ''./'' \<or>
          request_path pf request = ''./index.html'' \<or>
          request_path pf request = ''./manifest.json'' \<or>
          names_icon (request_path pf request) \<or>
          has_cached_extension (request_path pf request))
      then CacheFirst else NetworkFirst)"
proof -
  let ?p = "pathname (new_URL pf (req_url request))"
  define hit where "hit \<longleftrightarrow>
    ?p = ''./'' \<or> ?p = ''./index.html'' \<or> ?p = ''./manifest.json'' \<or>
    includesStr ?p ''icon-'' \<or>
    endsWith ?p ''.html'' \<or> endsWith ?p ''.js'' \<or> endsWith ?p ''.css'' \<or>
    endsWith ?p ''.png'' \<or> endsWith ?p ''.jpg'' \<or> endsWith ?p ''.svg'' \<or>
    endsWith ?p ''.ico''"
  have code: "getCacheStrategy pf request =
      (if same_origin pf request then (if hit then CacheFirst else NetworkFirst) else NetworkFirst)"
    unfolding getCacheStrategy_def Let_def hit_def same_origin_def by (rule refl)
  have spec: "(request_path pf request = ''./'' \<or>
      request_path pf request = ''./index.html'' \<or>
      request_path pf request = ''./manifest.json'' \<or>
      names_icon (request_path pf request) \<or>
      has_cached_extension (request_path pf request)) \<longleftrightarrow> hit"
    unfolding hit_def request_path_def names_icon_def cached_extension_endsWith
      includesStr_sublist [symmetric]
    by (rule refl)
  show ?thesis
    unfolding code spec by simp
qed

lemma normalized_paths_miss:
  "\<not> names_icon ''/''" "\<not> names_icon ''/manifest.json''"
  "\<not> has_cached_extension ''/''" "\<not> has_cached_extension ''/manifest.json''"
  by (simp_all add: names_icon_def includesStr_sublist [symmetric] startsWith_def
      has_cached_extension_def path_extension_def cached_extensions_def)

lemma example_paths:
  "request_path offline (get_request ''https://declic.example/manifest.json'' m) = ''/manifest.json''"
  "request_path offline (get_request ''https://declic.example/index.html'' m) = ''/index.html''"
  "request_path offline (get_request ''https://declic.example/icon-data.json'' m) = ''/icon-data.json''"
  "request_path offline (get_request ''https://declic.example/api/oracle'' m) = ''/api/oracle''"
  by (simp_all add: request_path_def offline_def get_request_def example_URL_def)

lemma example_origins:
  "same_origin offline (get_request ''https://declic.example/manifest.json'' m)"
  "same_origin offline (get_request ''https://declic.example/index.html'' m)"
  "same_origin offline (get_request ''https://declic.example/icon-data.json'' m)"
  "same_origin offline (get_request ''https://declic.example/api/oracle'' m)"
  by (simp_all add: same_origin_def offline_def get_request_def example_URL_def)

lemma example_extensions:
  "has_cached_extension ''/index.html''"
  "\<not> has_cached_extension ''/icon-data.json''"
  "\<not> has_cached_extension ''/api/oracle''"
  by (simp_all add: has_cached_extension_def path_extension_def cached_extensions_def)

lemma example_icons:
  "names_icon ''/icon-data.json''"
  "\<not> names_icon ''/api/oracle''"
  "\<not> names_icon ''/index.html''"
  by (simp_all add: names_icon_def includesStr_sublist [symmetric] startsWith_def)

text \<open>
  Claim C2. The selector answers cache-first exactly for the requests of the worker's own
  origin whose path is one of the three literals \<^verbatim>\<open>./\<close>, \<^verbatim>\<open>./index.html\<close> and
  \<^verbatim>\<open>./manifest.json\<close>, or names an icon asset, or has one of the extensions html, js,
  css, png, jpg, svg, ico; every other request gets network-first. The paths of a
  normalized URL begin with a slash: the manifest \<^verbatim>\<open>/manifest.json\<close> and the
  application root \<^verbatim>\<open>/\<close> get network-first. The selector is a function of the
  platform and the request only: it neither reads nor changes the worker's state.
\<close>

theorem getCacheStrategy_selects:
  "getCacheStrategy pf request =
     (if same_origin pf request \<and>
         (request_path pf request = ''./'' \<or>
          request_path pf request = ''./index.html'' \<or>
          request_path pf request = ''./manifest.json'' \<or>
          names_icon (request_path pf request) \<or>
          has_cached_extension (request_path pf request))
      then CacheFirst else NetworkFirst) \<and>
   (request_path pf request = ''/manifest.json'' \<or> request_path pf request = ''/'' \<longrightarrow>
      getCacheStrategy pf request = NetworkFirst)"
proof (intro conjI impI)
  show "getCacheStrategy pf request =
     (if same_origin pf request \<and>
         (request_path pf request = ''./'' \<or>
          request_path pf request = ''./index.html'' \<or>
          request_path pf request = ''./manifest.json'' \<or>
          names_icon (request_path pf request) \<or>
          has_cached_extension (request_path pf request))
      then CacheFirst else NetworkFirst)"
    by (rule getCacheStrategy_cond)
next
  assume "request_path pf request = ''/manifest.json'' \<or> request_path pf request = ''/''"
  then show "getCacheStrategy pf request = NetworkFirst"
    by (auto simp: getCacheStrategy_cond normalized_paths_miss)
qed

theorem getCacheStrategy_selects_witness:
  "same_origin offline (get_request ''https://declic.example/manifest.json'' ''cors'') \<and>
   request_path offline (get_request ''https://declic.example/manifest.json'' ''cors'') = ''/manifest.json'' \<and>
   getCacheStrategy offline (get_request ''https://declic.example/manifest.json'' ''cors'') = NetworkFirst \<and>
   getCacheStrategy offline (get_request ''https://declic.example/index.html'' ''cors'') = CacheFirst"
  using getCacheStrategy_selects [of offline "get_request ''https://declic.example/manifest.json'' ''cors''"]
    getCacheStrategy_selects [of offline "get_request ''https://declic.example/index.html'' ''cors''"]
  by (simp add: example_paths example_origins example_extensions normalized_paths_miss)

text \<open>
  Claim C3, as stated: a same-origin request gets cache-first when its extension is one of
  the seven, and every other request gets network-first, also one whose path contains
  \<^verbatim>\<open>icon-\<close> and has another extension. The selector answers cache-first for
  \<^verbatim>\<open>/icon-data.json\<close>, whose extension is \<^verbatim>\<open>json\<close>.
\<close>

theorem getCacheStrategy_extension_only_counterexample:
  "\<not> (has_cached_extension
         (request_path offline (get_request ''https://declic.example/icon-data.json'' ''cors'')) \<and>
       same_origin offline (get_request ''https://declic.example/icon-data.json'' ''cors'')) \<and>
   getCacheStrategy offline (get_request ''https://declic.example/icon-data.json'' ''cors'') \<noteq> NetworkFirst"
  by (simp add: getCacheStrategy_cond example_paths example_origins example_extensions example_icons)

lemma icon_examples:
  "request_path offline (get_request ''https://declic.example/icon-192x192.png'' m) = ''/icon-192x192.png''"
  "same_origin offline (get_request ''https://declic.example/icon-192x192.png'' m)"
  "request_path offline (get_request ''https://cdn.example/icon-192x192.png'' m) = ''/icon-192x192.png''"
  "\<not> same_origin offline (get_request ''https://cdn.example/icon-192x192.png'' m)"
  "names_icon ''/icon-192x192.png''"
  by (simp_all add: request_path_def same_origin_def offline_def get_request_def example_URL_def
      names_icon_def includesStr_sublist [symmetric] startsWith_def)

text \<open>
  Claim C3, amended. A request of the worker's own origin gets cache-first when its
  extension is one of the seven, and also when its path contains \<^verbatim>\<open>icon-\<close>,
  whatever its extension. Every request of another origin gets network-first, one whose
  path contains \<^verbatim>\<open>icon-\<close> included, and so does every request whose path has no
  such extension, does not contain \<^verbatim>\<open>icon-\<close> and is neither of the literals
  \<^verbatim>\<open>./\<close> and \<^verbatim>\<open>./manifest.json\<close>. The first conjunct is the exact characterisation.
\<close>

theorem getCacheStrategy_extension_or_icon:
  "getCacheStrategy pf request =
     (if same_origin pf request \<and>
         (has_cached_extension (request_path pf request) \<or>
          names_icon (request_path pf request) \<or>
          request_path pf request = ''./'' \<or>
          request_path pf request = ''./manifest.json'')
      then CacheFirst else NetworkFirst) \<and>
   (same_origin pf request \<and>
    (has_cached_extension (request_path pf request) \<or> names_icon (request_path pf request)) \<longrightarrow>
      getCacheStrategy pf request = CacheFirst) \<and>
   (\<not> same_origin pf request \<longrightarrow> getCacheStrategy pf request = NetworkFirst) \<and>
   (\<not> has_cached_extension (request_path pf request) \<and>
    \<not> names_icon (request_path pf request) \<and>
    request_path pf request \<noteq> ''./'' \<and> request_path pf request \<noteq> ''./manifest.json'' \<longrightarrow>
      getCacheStrategy pf request = NetworkFirst)"
proof -
  have main: "has_cached_extension ''./index.html''"
    by (simp add: has_cached_extension_def path_extension_def cached_extensions_def)
  have eq: "getCacheStrategy pf request =
     (if same_origin pf request \<and>
         (has_cached_extension (request_path pf request) \<or>
          names_icon (request_path pf request) \<or>
          request_path pf request = ''./'' \<or>
          request_path pf request = ''./manifest.json'')
      then CacheFirst else NetworkFirst)"
    using main by (auto simp: getCacheStrategy_cond)
  show ?thesis
  proof (intro conjI impI)
    show "getCacheStrategy pf request =
     (if same_origin pf request \<and>
         (has_cached_extension (request_path pf request) \<or>
          names_icon (request_path pf request) \<or>
          request_path pf request = ''./'' \<or>
          request_path pf request = ''./manifest.json'')
      then CacheFirst else NetworkFirst)"
      by (rule eq)
  next
    assume "same_origin pf request \<and>
      (has_cached_extension (request_path pf request) \<or> names_icon (request_path pf request))"
    then show "getCacheStrategy pf request = CacheFirst"
      by (auto simp: eq)
  next
    assume "\<not> same_origin pf request"
    then show "getCacheStrategy pf request = NetworkFirst"
      by (auto simp: eq)
  next
    assume "\<not> has_cached_extension (request_path pf request) \<and>
      \<not> names_icon (request_path pf request) \<and>
      request_path pf request \<noteq> ''./'' \<and> request_path pf request \<noteq> ''./manifest.json''"
    then show "getCacheStrategy pf request = NetworkFirst"
      by (auto simp: eq)
  qed
qed

theorem getCacheStrategy_extension_or_icon_witness:
  "has_cached_extension (request_path offline (get_request ''https://declic.example/index.html'' ''cors'')) \<and>
   same_origin offline (get_request ''https://declic.example/index.html'' ''cors'') \<and>
   getCacheStrategy offline (get_request ''https://declic.example/index.html'' ''cors'') = CacheFirst \<and>
   names_icon (request_path offline (get_request ''https://declic.example/icon-data.json'' ''cors'')) \<and>
   same_origin offline (get_request ''https://declic.example/icon-data.json'' ''cors'') \<and>
   getCacheStrategy offline (get_request ''https://declic.example/icon-data.json'' ''cors'') = CacheFirst \<and>
   names_icon (request_path offline (get_request ''https://cdn.example/icon-192x192.png'' ''cors'')) \<and>
   \<not> same_origin offline (get_request ''https://cdn.example/icon-192x192.png'' ''cors'') \<and>
   getCacheStrategy offline (get_request ''https://cdn.example/icon-192x192.png'' ''cors'') = NetworkFirst \<and>
   \<not> has_cached_extension (request_path offline (get_request ''https://declic.example/api/oracle'' ''cors'')) \<and>
   \<not> names_icon (request_path offline (get_request ''https://declic.example/api/oracle'' ''cors'')) \<and>
   getCacheStrategy offline (get_request ''https://declic.example/api/oracle'' ''cors'') = NetworkFirst"
proof -
  note t1 = getCacheStrategy_extension_or_icon
      [of offline "get_request ''https://declic.example/index.html'' ''cors''"]
  note t2 = getCacheStrategy_extension_or_icon
      [of offline "get_request ''https://declic.example/icon-data.json'' ''cors''"]
  note t3 = getCacheStrategy_extension_or_icon
      [of offline "get_request ''https://cdn.example/icon-192x192.png'' ''cors''"]
  note t4 = getCacheStrategy_extension_or_icon
      [of offline "get_request ''https://declic.example/api/oracle'' ''cors''"]
  have c1: "getCacheStrategy offline (get_request ''https://declic.example/index.html'' ''cors'') = CacheFirst"
    using t1 [THEN conjunct2, THEN conjunct1]
    by (simp add: example_paths example_origins example_extensions)
  have c2: "getCacheStrategy offline (get_request ''https://declic.example/icon-data.json'' ''cors'') = CacheFirst"
    using t2 [THEN conjunct2, THEN conjunct1]
    by (simp add: example_paths example_origins example_icons)
  have c3: "getCacheStrategy offline (get_request ''https://cdn.example/icon-192x192.png'' ''cors'') = NetworkFirst"
    using t3 [THEN conjunct2, THEN conjunct2, THEN conjunct1]
    by (simp add: icon_examples)
  have c4: "getCacheStrategy offline (get_request ''https://declic.example/api/oracle'' ''cors'') = NetworkFirst"
    using t4 [THEN conjunct2, THEN conjunct2, THEN conjunct2]
    by (simp add: example_paths example_extensions example_icons)
  show ?thesis
    by (simp add: c1 c2 c3 c4 example_paths example_origins example_extensions example_icons
        icon_examples)
qed

subsection \<open>Installation\<close>

text \<open>Whatever happens to the required assets, the promise of the listener is fulfilled.\<close>

lemma install_fulfils: "fst (install pf w) = Inr ()"
  by (simp add: install_def Let_def split: prod.splits sum.splits)

text \<open>
  Claim C1 says that a required asset that cannot be stored makes the installation fail.
  With a network that fails every fetch, \<^verbatim>\<open>cache.addAll\<close> rejects, yet the promise
  that the listener hands to \<^verbatim>\<open>event.waitUntil\<close> is fulfilled: its final \<^verbatim>\<open>catch\<close>
  logs the error and returns. The installation completes with an empty static
  generation; only \<^verbatim>\<open>skipWaiting\<close> is left out.
\<close>

theorem install_completes_without_required_assets:
  "fst (cache_addAll offline STATIC_CACHE STATIC_ASSETS
          (fresh_worker\<lparr>storage := caches_open STATIC_CACHE (storage fresh_worker)\<rparr>)) = Inl NetworkError \<and>
   fst (install offline fresh_worker) = Inr () \<and>
   cache_of STATIC_CACHE (storage (snd (install offline fresh_worker))) = []"
  by (simp add: install_def cache_addAll_def cache_add_def fetch_def offline_def fresh_worker_def
      STATIC_ASSETS_def OPTIONAL_ASSETS_def caches_open_def caches_keys_def cache_of_def
      STATIC_CACHE_def DYNAMIC_CACHE_def Let_def)

subsection \<open>Activation\<close>

lemma fold_caches_delete:
  "fold caches_delete ds cs = filter (\<lambda>(n, c). n \<notin> set ds) cs"
proof (induction ds arbitrary: cs)
  case Nil
  then show ?case by simp
next
  case (Cons d ds)
  have "filter (\<lambda>(n, c). n \<notin> set ds) (caches_delete d cs) = filter (\<lambda>(n, c). n \<notin> set (d # ds)) cs"
    by (induction cs) (auto simp: caches_delete_def)
  then show ?case
    by (simp add: Cons.IH)
qed

lemma keys_filter: "caches_keys (filter (\<lambda>(n, c). P n) cs) = filter P (caches_keys cs)"
  by (induction cs) (auto simp: caches_keys_def)

lemma activate_keys:
  "caches_keys (storage (snd (activate w))) =
     filter (\<lambda>n. \<not> (startsWith n ''matteo-declic-'' \<and> n \<notin> {STATIC_CACHE, DYNAMIC_CACHE}))
       (caches_keys (storage w))"
proof -
  let ?stale = "filter (\<lambda>n. startsWith n ''matteo-declic-'' \<and>
      n \<notin> set [STATIC_CACHE, DYNAMIC_CACHE]) (caches_keys (storage w))"
  have "caches_keys (storage (snd (activate w))) =
      filter (\<lambda>n. n \<notin> set ?stale) (caches_keys (storage w))"
    by (simp add: activate_def Let_def fold_caches_delete keys_filter)
  also have "\<dots> = filter (\<lambda>n. \<not> (startsWith n ''matteo-declic-'' \<and> n \<notin> {STATIC_CACHE, DYNAMIC_CACHE}))
       (caches_keys (storage w))"
    by (rule filter_cong) auto
  finally show ?thesis .
qed

lemma activate_generations:
  "app_generations (snd (activate w)) = app_generations w \<inter> {STATIC_CACHE, DYNAMIC_CACHE}"
  unfolding app_generations_def activate_keys by auto

lemma keys_update_cache: "caches_keys (update_cache name f cs) = caches_keys cs"
  by (induction cs) (auto simp: caches_keys_def update_cache_def)

lemma keys_cache_put: "caches_keys (cache_put name q r cs) = caches_keys cs"
  by (simp add: cache_put_def keys_update_cache)

lemma keys_caches_open: "set (caches_keys (caches_open name cs)) = insert name (set (caches_keys cs))"
  by (auto simp: caches_open_def caches_keys_def)

lemma storage_fetch: "storage (snd (fetch pf q w)) = storage w"
  by (simp add: fetch_def)

lemma storage_fetch_all: "storage (snd (fetch_all pf us w)) = storage w"
proof (induction us arbitrary: w)
  case Nil
  then show ?case by simp
next
  case (Cons u us)
  have "storage (snd (fetch_all pf us (snd (fetch pf (request_of pf u) w)))) = storage w"
    by (simp add: Cons.IH storage_fetch)
  then show ?case
    by (auto simp: Let_def split: prod.splits sum.splits)
qed

lemma keys_fold_put:
  "caches_keys (fold (\<lambda>(q, r). cache_put name q r) rs cs) = caches_keys cs"
  by (induction rs arbitrary: cs) (auto simp: keys_cache_put)

lemma keys_cache_addAll:
  "caches_keys (storage (snd (cache_addAll pf name us w))) = caches_keys (storage w)"
proof -
  obtain res w1 where f: "fetch_all pf us w = (res, w1)"
    by (cases "fetch_all pf us w")
  then have "storage w1 = storage w"
    using storage_fetch_all [of pf us w] by simp
  then show ?thesis
    by (cases res) (simp_all add: cache_addAll_def f keys_fold_put)
qed

lemma keys_cache_add:
  "caches_keys (storage (snd (cache_add pf name u w))) = caches_keys (storage w)"
  by (simp add: cache_add_def fetch_def Let_def keys_cache_put split: sum.splits)

lemma keys_fold_add:
  "caches_keys (storage (fold (\<lambda>asset v. snd (cache_add pf name asset v)) us w)) =
     caches_keys (storage w)"
  by (induction us arbitrary: w) (simp_all add: keys_cache_add)

lemma install_keys:
  "set (caches_keys (storage (snd (install pf w)))) =
     {STATIC_CACHE, DYNAMIC_CACHE} \<union> set (caches_keys (storage w))"
proof -
  let ?w1 = "w\<lparr>storage := caches_open STATIC_CACHE (storage w)\<rparr>"
  obtain required w2 where a: "cache_addAll pf STATIC_CACHE STATIC_ASSETS ?w1 = (required, w2)"
    by (cases "cache_addAll pf STATIC_CACHE STATIC_ASSETS ?w1")
  have k2: "caches_keys (storage w2) = caches_keys (caches_open STATIC_CACHE (storage w))"
    using keys_cache_addAll [of pf STATIC_CACHE STATIC_ASSETS ?w1] by (simp add: a)
  let ?w3 = "w2\<lparr>storage := caches_open DYNAMIC_CACHE (storage w2)\<rparr>"
  let ?w4 = "fold (\<lambda>asset v. snd (cache_add pf DYNAMIC_CACHE asset v)) OPTIONAL_ASSETS ?w3"
  have k4: "set (caches_keys (storage ?w4)) = {STATIC_CACHE, DYNAMIC_CACHE} \<union> set (caches_keys (storage w))"
    by (auto simp: keys_fold_add keys_caches_open k2)
  have "storage (snd (install pf w)) = storage ?w4"
    by (cases required) (simp_all add: install_def Let_def a)
  then show ?thesis
    using k4 by simp
qed

lemma live_names_prefixed:
  "startsWith STATIC_CACHE ''matteo-declic-''" "startsWith DYNAMIC_CACHE ''matteo-declic-''"
  by (simp_all add: startsWith_def STATIC_CACHE_def DYNAMIC_CACHE_def)

text \<open>
  Claim C4. After the activation that follows an installation, the generations of the
  application are exactly the static and the dynamic generation of the current version.
  From any state, activation keeps of the application's generations those two names and
  no other: every other generation with the application's prefix that existed before is
  gone from the cache storage, whatever its version tag.
\<close>

theorem activate_leaves_live_generations:
  "app_generations (snd (activate (snd (install pf w)))) = {STATIC_CACHE, DYNAMIC_CACHE} \<and>
   app_generations (snd (activate w)) = app_generations w \<inter> {STATIC_CACHE, DYNAMIC_CACHE} \<and>
   (\<forall>n \<in> app_generations w.
      n \<notin> {STATIC_CACHE, DYNAMIC_CACHE} \<longrightarrow> n \<notin> set (caches_keys (storage (snd (activate w)))))"
proof (intro conjI ballI impI)
  have "{STATIC_CACHE, DYNAMIC_CACHE} \<subseteq> app_generations (snd (install pf w))"
    by (simp add: app_generations_def install_keys live_names_prefixed)
  then show "app_generations (snd (activate (snd (install pf w)))) = {STATIC_CACHE, DYNAMIC_CACHE}"
    unfolding activate_generations by blast
next
  show "app_generations (snd (activate w)) = app_generations w \<inter> {STATIC_CACHE, DYNAMIC_CACHE}"
    by (rule activate_generations)
next
  fix n
  assume "n \<in> app_generations w" and "n \<notin> {STATIC_CACHE, DYNAMIC_CACHE}"
  then show "n \<notin> set (caches_keys (storage (snd (activate w))))"
    by (simp add: activate_keys app_generations_def)
qed

theorem activate_leaves_live_generations_witness:
  "''matteo-declic-static-v0.9.0'' \<in> app_generations stale_worker \<and>
   ''matteo-declic-static-v0.9.0'' \<notin> {STATIC_CACHE, DYNAMIC_CACHE} \<and>
   ''matteo-declic-static-v0.9.0'' \<notin> set (caches_keys (storage (snd (activate stale_worker)))) \<and>
   app_generations (snd (activate (snd (install offline stale_worker)))) =
     {STATIC_CACHE, DYNAMIC_CACHE}"
proof -
  have k: "caches_keys (storage stale_worker) =
      [''matteo-declic-static-v0.9.0'', ''fonts'', STATIC_CACHE, DYNAMIC_CACHE]"
    by (simp add: stale_worker_def fresh_worker_def caches_keys_def)
  have m: "''matteo-declic-static-v0.9.0'' \<in> app_generations stale_worker"
    by (simp add: app_generations_def k startsWith_def)
  have l: "''matteo-declic-static-v0.9.0'' \<notin> {STATIC_CACHE, DYNAMIC_CACHE}"
    by (simp add: STATIC_CACHE_def DYNAMIC_CACHE_def)
  note t = activate_leaves_live_generations [of offline stale_worker]
  have gone: "''matteo-declic-static-v0.9.0'' \<notin> set (caches_keys (storage (snd (activate stale_worker))))"
    by (rule t [THEN conjunct2, THEN conjunct2, THEN bspec, OF m, THEN mp, OF l])
  have live: "app_generations (snd (activate (snd (install offline stale_worker)))) =
     {STATIC_CACHE, DYNAMIC_CACHE}"
    by (rule t [THEN conjunct1])
  show ?thesis
    by (intro conjI m l gone live)
qed

subsection \<open>Eviction\<close>

lemma cache_of_open: "cache_of name (caches_open name' cs) = cache_of name cs"
proof (cases "name' \<in> set (caches_keys cs)")
  case True
  then show ?thesis
    by (simp add: caches_open_def)
next
  case False
  then have "map_of cs name' = None"
    by (simp add: caches_keys_def map_of_eq_None_iff)
  then show ?thesis
    using False by (simp add: cache_of_def caches_open_def map_add_def split: option.splits)
qed

lemma cache_of_update:
  assumes "f [] = []"
  shows "cache_of name (update_cache name f cs) = f (cache_of name cs)"
  using assms by (induction cs) (auto simp: cache_of_def update_cache_def)

lemma cache_of_update_present:
  assumes "name \<in> set (caches_keys cs)"
  shows "cache_of name (update_cache name f cs) = f (cache_of name cs)"
  using assms by (induction cs) (auto simp: cache_of_def update_cache_def caches_keys_def)

lemma fold_delete_entry:
  "fold cache_delete_entry ks c = filter (\<lambda>(k, r). k \<notin> set ks) c"
proof (induction ks arbitrary: c)
  case Nil
  then show ?case by simp
next
  case (Cons k ks)
  have "filter (\<lambda>(k', r). k' \<notin> set ks) (cache_delete_entry k c) =
      filter (\<lambda>(k', r). k' \<notin> set (k # ks)) c"
    by (induction c) (auto simp: cache_delete_entry_def)
  then show ?case
    by (simp add: Cons.IH)
qed

lemma cache_of_fold_delete:
  "cache_of name (fold (cache_delete name) ks cs) = fold cache_delete_entry ks (cache_of name cs)"
proof (induction ks arbitrary: cs)
  case Nil
  then show ?case by simp
next
  case (Cons k ks)
  have "cache_of name (cache_delete name k cs) = cache_delete_entry k (cache_of name cs)"
    unfolding cache_delete_def by (rule cache_of_update) (simp add: cache_delete_entry_def)
  then show ?case
    by (simp add: Cons.IH)
qed

lemma filter_oldest_keys:
  assumes "distinct (map fst c)"
  shows "filter (\<lambda>(k, r). k \<notin> set (take m (map fst c))) c = drop m c"
proof -
  have split: "c = take m c @ drop m c"
    by simp
  have keys: "map fst c = map fst (take m c) @ map fst (drop m c)"
    by (metis split map_append)
  with assms have disj: "set (map fst (take m c)) \<inter> set (map fst (drop m c)) = {}"
    by (metis distinct_append)
  have old: "filter (\<lambda>(k, r). k \<notin> set (take m (map fst c))) (take m c) = []"
    by (force simp: filter_empty_conv take_map)
  have young: "filter (\<lambda>(k, r). k \<notin> set (take m (map fst c))) (drop m c) = drop m c"
  proof -
    have "k \<notin> set (take m (map fst c))" if "(k, r) \<in> set (drop m c)" for k r
    proof
      assume "k \<in> set (take m (map fst c))"
      then have "k \<in> set (map fst (take m c))"
        by (simp add: take_map)
      moreover have "k \<in> set (map fst (drop m c))"
        using that by force
      ultimately show False
        using disj by blast
    qed
    then show ?thesis
      by (auto simp: filter_id_conv)
  qed
  have "filter (\<lambda>(k, r). k \<notin> set (take m (map fst c))) (take m c @ drop m c) = drop m c"
    by (simp only: filter_append old young append_Nil)
  then show ?thesis
    by simp
qed

lemma limitDynamicCache_entries:
  assumes "distinct (cache_keys (dynamic_entries w))"
  shows "dynamic_entries (limitDynamicCache w) =
           drop (length (dynamic_entries w) - 50) (dynamic_entries w)"
proof (cases "50 < length (dynamic_entries w)")
  case True
  then show ?thesis
    using assms
    by (simp add: limitDynamicCache_def dynamic_entries_def Let_def cache_of_open cache_keys_def
        cache_of_fold_delete fold_delete_entry filter_oldest_keys)
next
  case False
  then show ?thesis
    by (simp add: limitDynamicCache_def dynamic_entries_def Let_def cache_of_open cache_keys_def)
qed

lemma keys_fold_cache_delete:
  "caches_keys (fold (cache_delete name) ks cs) = caches_keys cs"
  by (induction ks arbitrary: cs) (simp_all add: cache_delete_def keys_update_cache)

lemma limitDynamicCache_opens:
  "DYNAMIC_CACHE \<in> set (caches_keys (storage (limitDynamicCache w)))"
  by (simp add: limitDynamicCache_def Let_def keys_fold_cache_delete keys_caches_open)

lemma delete_after_put: "cache_delete_entry u (cache_put_entry u r c) = cache_delete_entry u c"
  by (simp add: cache_put_entry_def cache_delete_entry_def)

lemma cache_add_other_entries:
  assumes "name \<in> set (caches_keys (storage w))"
  shows "cache_delete_entry (resolve pf u) (cache_of name (storage (snd (cache_add pf name u w)))) =
         cache_delete_entry (resolve pf u) (cache_of name (storage w))"
proof (cases "network pf (request_of pf u)")
  case (Inl e)
  then show ?thesis
    by (simp add: cache_add_def fetch_def Let_def)
next
  case (Inr r)
  show ?thesis
  proof (cases "ok r \<and> status r \<noteq> 206")
    case True
    have q: "req_method (request_of pf u) = ''GET''" "req_url (request_of pf u) = resolve pf u"
      by (simp_all add: request_of_def)
    from True have "storage (snd (cache_add pf name u w)) =
        update_cache name (cache_put_entry (resolve pf u) r) (storage w)"
      by (simp add: cache_add_def fetch_def Let_def Inr cache_put_def q)
    then show ?thesis
      by (simp add: cache_of_update_present [OF assms] delete_after_put)
  next
    case False
    then show ?thesis
      by (auto simp: cache_add_def fetch_def Let_def Inr)
  qed
qed

lemma performBackgroundSync_other_entries:
  "cache_delete_entry (resolve pf ''./index.html'') (dynamic_entries (performBackgroundSync pf w)) =
   cache_delete_entry (resolve pf ''./index.html'') (dynamic_entries (limitDynamicCache w))"
  unfolding performBackgroundSync_def dynamic_entries_def
  by (rule cache_add_other_entries) (rule limitDynamicCache_opens)

text \<open>The keys of a cache stay distinct under the two operations that change it.\<close>

lemma distinct_delete_entry:
  "distinct (cache_keys c) \<Longrightarrow> distinct (cache_keys (cache_delete_entry u c))"
  by (simp add: cache_keys_def cache_delete_entry_def distinct_map_filter)

lemma distinct_put_entry:
  assumes "distinct (cache_keys c)"
  shows "distinct (cache_keys (cache_put_entry u r c))"
proof -
  have "u \<notin> set (cache_keys (cache_delete_entry u c))"
    by (auto simp: cache_keys_def cache_delete_entry_def)
  then show ?thesis
    using distinct_delete_entry [OF assms, of u]
    by (simp add: cache_put_entry_def cache_keys_def)
qed

text \<open>
  Claim C5. On a dynamic generation of \<open>n\<close> entries with distinct keys, the eviction
  deletes the first \<open>n - 50\<close> entries of the enumeration and keeps the last 50, in their
  order, when \<open>n\<close> is above 50: of 73 entries the first 23 go and the last 50 stay. With
  at most 50 entries nothing is deleted. The order is that of the enumeration; no access
  time is recorded anywhere. The storing of the main document that follows the eviction
  in \<^verbatim>\<open>performBackgroundSync\<close> changes no entry of another key.
\<close>

theorem limitDynamicCache_fifo:
  assumes "distinct (cache_keys (dynamic_entries w))"
  shows "(50 < length (dynamic_entries w) \<longrightarrow>
            dynamic_entries (limitDynamicCache w) =
              drop (length (dynamic_entries w) - 50) (dynamic_entries w) \<and>
            length (dynamic_entries (limitDynamicCache w)) = 50) \<and>
         (length (dynamic_entries w) = 73 \<longrightarrow>
            dynamic_entries (limitDynamicCache w) = drop 23 (dynamic_entries w) \<and>
            length (dynamic_entries w) - length (dynamic_entries (limitDynamicCache w)) = 23 \<and>
            length (dynamic_entries (limitDynamicCache w)) = 50) \<and>
         (length (dynamic_entries w) \<le> 50 \<longrightarrow>
            dynamic_entries (limitDynamicCache w) = dynamic_entries w) \<and>
         cache_delete_entry (resolve pf ''./index.html'')
             (dynamic_entries (performBackgroundSync pf w)) =
           cache_delete_entry (resolve pf ''./index.html'')
             (dynamic_entries (limitDynamicCache w))"
  by (simp add: limitDynamicCache_entries [OF assms] performBackgroundSync_other_entries)

theorem limitDynamicCache_fifo_witness:
  "distinct (cache_keys (dynamic_entries crowded_worker)) \<and>
   length (dynamic_entries crowded_worker) = 73 \<and>
   dynamic_entries (limitDynamicCache crowded_worker) = drop 23 (dynamic_entries crowded_worker) \<and>
   length (dynamic_entries (limitDynamicCache crowded_worker)) = 50 \<and>
   dynamic_entries (limitDynamicCache fresh_worker) = dynamic_entries fresh_worker"
proof -
  have e: "dynamic_entries crowded_worker = numbered_entries 73"
    by (simp add: dynamic_entries_def crowded_worker_def fresh_worker_def cache_of_def
        STATIC_CACHE_def DYNAMIC_CACHE_def)
  have d: "distinct (cache_keys (dynamic_entries crowded_worker))"
    by (simp add: e cache_keys_def numbered_entries_def distinct_map inj_on_def comp_def)
  have n: "length (dynamic_entries crowded_worker) = 73"
    by (simp add: e numbered_entries_def)
  have f: "dynamic_entries fresh_worker = []"
    by (simp add: dynamic_entries_def fresh_worker_def cache_of_def)
  have fd: "distinct (cache_keys (dynamic_entries fresh_worker))"
    by (simp add: f cache_keys_def)
  show ?thesis
    using limitDynamicCache_fifo [OF d, of offline] limitDynamicCache_fifo [OF fd, of offline] d n f
    by simp
qed

subsection \<open>The executors and the dispatcher\<close>

lemma no_match_fresh: "caches_match (storage fresh_worker) q = None"
  by (simp add: caches_match_def fresh_worker_def)

lemma stocked_matches:
  "caches_match (storage stocked_worker) (get_request ''https://declic.example/index.html'' m) = Some page"
  "caches_match (storage stocked_worker) (get_request ''https://declic.example/about'' m) = None"
  "caches_match_url (storage stocked_worker) (resolve offline ''./index.html'') = Some page"
  by (simp_all add: caches_match_def stocked_worker_def fresh_worker_def get_request_def
      offline_def example_resolve_def)

lemma offline_fails: "network offline q = Inl NetworkError"
  by (simp add: offline_def)

lemma navigate_mode: "req_mode (get_request u ''navigate'') = ''navigate''"
  by (simp add: get_request_def)

text \<open>
  Claim C6. A navigation request that misses the cache and whose fetch fails is answered
  by the cache-first executor with the cached main document when there is one, and
  otherwise with the placeholder of status 503 and an HTML content type; the failure is
  not propagated.
\<close>

theorem cacheFirst_navigation_fallback:
  assumes "caches_match (storage w) request = None"
    and "network pf request = Inl e"
    and "req_mode request = ''navigate''"
  shows "fst (cacheFirst pf request w) =
           Inr (case caches_match_url (storage w) (resolve pf ''./index.html'') of
                  Some main \<Rightarrow> main
                | None \<Rightarrow> offline_response) \<and>
         status offline_response = 503 \<and>
         map_of (headers offline_response) ''Content-Type'' = Some ''text/html; charset=utf-8''"
  using assms
  by (simp add: cacheFirst_def fetch_def offline_response_def split: option.splits)

theorem cacheFirst_navigation_fallback_witness:
  "caches_match (storage fresh_worker) (get_request ''https://declic.example/index.html'' ''navigate'') = None \<and>
   network offline (get_request ''https://declic.example/index.html'' ''navigate'') = Inl NetworkError \<and>
   req_mode (get_request ''https://declic.example/index.html'' ''navigate'') = ''navigate'' \<and>
   fst (cacheFirst offline (get_request ''https://declic.example/index.html'' ''navigate'') fresh_worker) =
     Inr offline_response \<and>
   fst (cacheFirst offline (get_request ''https://declic.example/about'' ''navigate'') stocked_worker) =
     Inr page"
proof -
  let ?home = "get_request ''https://declic.example/index.html'' ''navigate''"
  let ?about = "get_request ''https://declic.example/about'' ''navigate''"
  have a: "caches_match (storage fresh_worker) ?home = None"
    by (rule no_match_fresh)
  have b: "network offline ?home = Inl NetworkError"
    by (rule offline_fails)
  have c: "req_mode ?home = ''navigate''"
    by (rule navigate_mode)
  have a': "caches_match (storage stocked_worker) ?about = None"
    by (rule stocked_matches)
  have b': "network offline ?about = Inl NetworkError"
    by (rule offline_fails)
  have c': "req_mode ?about = ''navigate''"
    by (rule navigate_mode)
  have none: "caches_match_url (storage fresh_worker) u = None" for u
    by (simp add: fresh_worker_def)
  show ?thesis
    using cacheFirst_navigation_fallback [OF a b c] cacheFirst_navigation_fallback [OF a' b' c']
    by (simp add: a b c none stocked_matches)
qed

text \<open>
  Claim C7. When the fetch fails, the network-first executor returns the cached entry
  that matches the request when there is one, and otherwise propagates the failure of
  the fetch, for a navigation as for any other request; the cache storage is unchanged.
\<close>

theorem networkFirst_failure:
  assumes "network pf request = Inl e"
  shows "networkFirst pf request w =
           (case caches_match (storage w) request of
              Some cachedResponse \<Rightarrow> Inr cachedResponse
            | None \<Rightarrow> Inl e,
            w\<lparr>fetched := fetched w @ [request]\<rparr>)"
  using assms
  by (simp add: networkFirst_def fetch_def split: option.splits)

theorem networkFirst_failure_witness:
  "network offline (get_request ''https://declic.example/api/oracle'' ''navigate'') = Inl NetworkError \<and>
   fst (networkFirst offline (get_request ''https://declic.example/api/oracle'' ''navigate'') fresh_worker) =
     Inl NetworkError \<and>
   fst (networkFirst offline (get_request ''https://declic.example/index.html'' ''navigate'') stocked_worker) =
     Inr page"
proof -
  let ?api = "get_request ''https://declic.example/api/oracle'' ''navigate''"
  let ?home = "get_request ''https://declic.example/index.html'' ''navigate''"
  have a: "network offline ?api = Inl NetworkError"
    by (rule offline_fails)
  have b: "network offline ?home = Inl NetworkError"
    by (rule offline_fails)
  show ?thesis
    using networkFirst_failure [OF a, of fresh_worker] networkFirst_failure [OF b, of stocked_worker]
    by (simp add: a no_match_fresh stocked_matches)
qed

text \<open>
  Claim C8. When an entry of the cache matches the request, the cache-first executor
  returns that entry as it is and leaves the worker's state unchanged: no fetch is
  logged and nothing is written to a cache. The platform plays no part in the result.
\<close>

theorem cacheFirst_hit:
  assumes "caches_match (storage w) request = Some cachedResponse"
  shows "cacheFirst pf request w = (Inr cachedResponse, w) \<and>
         fetched (snd (cacheFirst pf request w)) = fetched w \<and>
         storage (snd (cacheFirst pf request w)) = storage w"
  using assms by (simp add: cacheFirst_def)

theorem cacheFirst_hit_witness:
  "caches_match (storage stocked_worker) (get_request ''https://declic.example/index.html'' ''navigate'') =
     Some page \<and>
   cacheFirst offline (get_request ''https://declic.example/index.html'' ''navigate'') stocked_worker =
     (Inr page, stocked_worker)"
proof -
  have a: "caches_match (storage stocked_worker)
      (get_request ''https://declic.example/index.html'' ''navigate'') = Some page"
    by (rule stocked_matches)
  show ?thesis
    using cacheFirst_hit [OF a, of offline] a by simp
qed

text \<open>
  Claim C9, as stated: a request that is not a GET, or whose URL has the scheme of a
  browser extension, is not intercepted. A GET request to a URL of the scheme
  \<^verbatim>\<open>safari-web-extension\<close> is answered by the listener, here with the placeholder of
  status 404.
\<close>

theorem fetch_listener_extension_scheme_counterexample:
  "browser_extension_scheme (get_request ''safari-web-extension://abcdef/content.js'' ''no-cors'') \<and>
   fetch_listener offline (get_request ''safari-web-extension://abcdef/content.js'' ''no-cors'')
     stocked_worker \<noteq> (NotIntercepted, stocked_worker) \<and>
   fst (fetch_listener offline (get_request ''safari-web-extension://abcdef/content.js'' ''no-cors'')
     stocked_worker) = RespondWith unavailable_response"
proof -
  let ?r = "get_request ''safari-web-extension://abcdef/content.js'' ''no-cors''"
  have s: "browser_extension_scheme ?r"
    by (simp add: browser_extension_scheme_def url_scheme_def extension_schemes_def get_request_def)
  have m: "caches_match (storage stocked_worker) ?r = None"
    by (simp add: caches_match_def stocked_worker_def fresh_worker_def get_request_def)
  have n: "network offline ?r = Inl NetworkError"
    by (simp add: offline_def)
  have q: "req_method ?r = ''GET''" "req_mode ?r = ''no-cors''"
      "req_url ?r = ''safari-web-extension://abcdef/content.js''"
    by (simp_all add: get_request_def)
  have cf: "cacheFirst offline ?r stocked_worker =
      (Inl NetworkError, stocked_worker\<lparr>fetched := fetched stocked_worker @ [?r]\<rparr>)"
    by (simp add: cacheFirst_def fetch_def m n q)
  have nf: "networkFirst offline ?r stocked_worker =
      (Inl NetworkError, stocked_worker\<lparr>fetched := fetched stocked_worker @ [?r]\<rparr>)"
    by (simp add: networkFirst_def fetch_def m n)
  have "fst (fetch_listener offline ?r stocked_worker) = RespondWith unavailable_response"
  proof (cases "getCacheStrategy offline ?r")
    case CacheFirst
    then show ?thesis
      by (simp add: fetch_listener_def q startsWith_def cf)
  next
    case NetworkFirst
    then show ?thesis
      by (simp add: fetch_listener_def q startsWith_def nf)
  qed
  then show ?thesis
    using s by (auto simp: prod_eq_iff)
qed

text \<open>
  Claim C9, amended. For a request that is not a GET, and for a request whose URL begins
  with \<^verbatim>\<open>chrome-extension://\<close> or \<^verbatim>\<open>moz-extension://\<close>, the fetch listener returns
  without answering and leaves the worker's state, the caches included, as it was. Every
  other request, a GET to a URL of another extension scheme included, is answered.
\<close>

theorem fetch_listener_passes_through:
  "(req_method request \<noteq> ''GET'' \<or> chrome_or_moz_extension request \<longrightarrow>
      fetch_listener pf request w = (NotIntercepted, w)) \<and>
   (req_method request = ''GET'' \<and> \<not> chrome_or_moz_extension request \<longrightarrow>
      fst (fetch_listener pf request w) \<noteq> NotIntercepted)"
proof (intro conjI impI)
  assume "req_method request \<noteq> ''GET'' \<or> chrome_or_moz_extension request"
  then show "fetch_listener pf request w = (NotIntercepted, w)"
    by (auto simp: fetch_listener_def chrome_or_moz_extension_def startsWith_prefix)
next
  assume "req_method request = ''GET'' \<and> \<not> chrome_or_moz_extension request"
  then show "fst (fetch_listener pf request w) \<noteq> NotIntercepted"
    by (simp add: fetch_listener_def chrome_or_moz_extension_def startsWith_prefix Let_def
        split: prod.splits sum.splits option.splits)
qed

theorem fetch_listener_passes_through_witness:
  "req_method \<lparr>req_url = ''https://declic.example/api/oracle'', req_method = ''POST'', req_mode = ''cors''\<rparr> \<noteq> ''GET'' \<and>
   fetch_listener offline
     \<lparr>req_url = ''https://declic.example/api/oracle'', req_method = ''POST'', req_mode = ''cors''\<rparr>
     stocked_worker = (NotIntercepted, stocked_worker) \<and>
   chrome_or_moz_extension (get_request ''chrome-extension://abcdef/content.js'' ''no-cors'') \<and>
   fetch_listener offline (get_request ''chrome-extension://abcdef/content.js'' ''no-cors'') stocked_worker =
     (NotIntercepted, stocked_worker) \<and>
   req_method (get_request ''safari-web-extension://abcdef/content.js'' ''no-cors'') = ''GET'' \<and>
   \<not> chrome_or_moz_extension (get_request ''safari-web-extension://abcdef/content.js'' ''no-cors'') \<and>
   fst (fetch_listener offline (get_request ''safari-web-extension://abcdef/content.js'' ''no-cors'')
     stocked_worker) \<noteq> NotIntercepted"
proof -
  let ?post = "\<lparr>req_url = ''https://declic.example/api/oracle'', req_method = ''POST'',
      req_mode = ''cors''\<rparr>"
  let ?chrome = "get_request ''chrome-extension://abcdef/content.js'' ''no-cors''"
  let ?safari = "get_request ''safari-web-extension://abcdef/content.js'' ''no-cors''"
  have post: "req_method ?post \<noteq> ''GET'' \<or> chrome_or_moz_extension ?post"
    by simp
  have ext: "chrome_or_moz_extension ?chrome"
    by (simp add: chrome_or_moz_extension_def get_request_def)
  have ext': "req_method ?chrome \<noteq> ''GET'' \<or> chrome_or_moz_extension ?chrome"
    using ext by simp
  have saf: "req_method ?safari = ''GET'' \<and> \<not> chrome_or_moz_extension ?safari"
    by (simp add: chrome_or_moz_extension_def get_request_def)
  note a = fetch_listener_passes_through [of ?post offline stocked_worker, THEN conjunct1, THEN mp, OF post]
  note b = fetch_listener_passes_through [of ?chrome offline stocked_worker, THEN conjunct1, THEN mp, OF ext']
  note c = fetch_listener_passes_through [of ?safari offline stocked_worker, THEN conjunct2, THEN mp, OF saf]
  show ?thesis
    using a b c ext saf by simp
qed

text \<open>
  Claim C10. When the fetch completes with a response that is not ok, both executors (the
  cache-first one after a cache miss) return that response as it is; the only change of
  the state is the log of the fetch, so nothing is written to a cache and no fallback is
  taken.
\<close>

theorem non_ok_response_returned:
  assumes "network pf request = Inr r" and "\<not> ok r"
  shows "networkFirst pf request w = (Inr r, w\<lparr>fetched := fetched w @ [request]\<rparr>) \<and>
         (caches_match (storage w) request = None \<longrightarrow>
            cacheFirst pf request w = (Inr r, w\<lparr>fetched := fetched w @ [request]\<rparr>))"
  using assms
  by (simp add: networkFirst_def cacheFirst_def fetch_def)

theorem non_ok_response_returned_witness:
  "network missing (get_request ''https://declic.example/api/oracle'' ''cors'') =
     Inr \<lparr>status = 404, headers = [], body = []\<rparr> \<and>
   \<not> ok \<lparr>status = 404, headers = [], body = []\<rparr> \<and>
   caches_match (storage stocked_worker) (get_request ''https://declic.example/about'' ''navigate'') = None \<and>
   fst (networkFirst missing (get_request ''https://declic.example/api/oracle'' ''cors'') stocked_worker) =
     Inr \<lparr>status = 404, headers = [], body = []\<rparr> \<and>
   storage (snd (networkFirst missing (get_request ''https://declic.example/api/oracle'' ''cors'') stocked_worker)) =
     storage stocked_worker \<and>
   fst (cacheFirst missing (get_request ''https://declic.example/about'' ''navigate'') stocked_worker) =
     Inr \<lparr>status = 404, headers = [], body = []\<rparr>"
proof -
  let ?api = "get_request ''https://declic.example/api/oracle'' ''cors''"
  let ?about = "get_request ''https://declic.example/about'' ''navigate''"
  have a: "network missing ?api = Inr \<lparr>status = 404, headers = [], body = []\<rparr>"
    by (simp add: missing_def)
  have b: "network missing ?about = Inr \<lparr>status = 404, headers = [], body = []\<rparr>"
    by (simp add: missing_def)
  have bad: "\<not> ok \<lparr>status = 404, headers = [], body = []\<rparr>"
    by (simp add: ok_def)
  show ?thesis
    using non_ok_response_returned [OF a bad, of stocked_worker]
      non_ok_response_returned [OF b bad, of stocked_worker]
    by (simp add: a bad stocked_matches)
qed

end
